theory Spec2Isabelle
  imports Main
begin

section \<open>Strings and characters\<close>

text \<open>
  A JavaScript string is a sequence of UTF-16 code units and \<open>pattern.length\<close> counts
  them. Here a string is a \<^typ>\<open>string\<close> (a list of \<^typ>\<open>char\<close>), one \<^typ>\<open>char\<close> per
  code unit, so the model covers the code units 0 to 255. The backslash cannot be written
  inside a string literal, so it gets a name.
\<close>

abbreviation bs :: char where
  "bs \<equiv> CHR 0x5C"

section \<open>The regular expressions the source is written with\<close>

text \<open>
  \<open>analyze.ts\<close> tests patterns against regex literals. All of them are sequences of
  single-character matchers (a literal, a bracket class, a negated bracket class), each with
  at most one of the quantifiers \<open>*\<close>, \<open>+\<close>, \<open>?\<close>, and the assertions \<open>^\<close> and \<open>$\<close>.
  This fragment is embedded as data, and \<open>RegExp.prototype.test\<close> as a function on it.
  The fragment has no backreference and no lookaround, so \<open>test\<close> answers true exactly when
  some substring belongs to the language of the expression; greediness only decides which
  match is found first, never whether there is one.
\<close>

datatype rx_class =
    Lit char            \<comment> \<open>a literal or escaped character, \<open>\(\<close>\<close>
  | Dot                 \<comment> \<open>\<open>.\<close>: any character but a line terminator\<close>
  | In string           \<comment> \<open>\<open>[abc]\<close>, with ranges written out\<close>
  | NotIn string        \<comment> \<open>\<open>[^abc]\<close>\<close>

datatype rx_quant = One | Star | Plus | Opt

datatype rx_term =
    Atom rx_class rx_quant
  | Bol                 \<comment> \<open>\<open>^\<close> (no \<open>m\<close> flag: start of input)\<close>
  | Eol                 \<comment> \<open>\<open>$\<close> (no \<open>m\<close> flag: end of input)\<close>

type_synonym rx = "rx_term list"

text \<open>
  Canonicalize of the ECMAScript specification for the \<open>i\<close> flag without the \<open>u\<close> flag:
  the code unit is upper-cased when the upper-case form is again a single code unit, and a
  non-ASCII code unit is never mapped to an ASCII one. On the code units 0 to 255 that is:
  \<open>a\<close>-\<open>z\<close> and the Latin-1 lower-case letters E0-FE (not F7) lose 32, B5 becomes 39C,
  FF becomes 178, everything else (also DF, whose upper-case form has two code units) is fixed.
\<close>

definition canonicalize :: "char \<Rightarrow> nat" where
  "canonicalize c =
     (let n = of_char c :: nat in
      if 97 \<le> n \<and> n \<le> 122 then n - 32
      else if 224 \<le> n \<and> n \<le> 254 \<and> n \<noteq> 247 then n - 32
      else if n = 181 then 924
      else if n = 255 then 376
      else n)"

definition char_eq :: "bool \<Rightarrow> char \<Rightarrow> char \<Rightarrow> bool" where
  "char_eq ic a b = (if ic then canonicalize a = canonicalize b else a = b)"

fun class_matches :: "bool \<Rightarrow> rx_class \<Rightarrow> char \<Rightarrow> bool" where
  "class_matches ic (Lit a) c = char_eq ic a c"
| "class_matches ic Dot c = (c \<noteq> CHR 0x0A \<and> c \<noteq> CHR 0x0D)"
| "class_matches ic (In as) c = list_ex (\<lambda>a. char_eq ic a c) as"
| "class_matches ic (NotIn as) c = (\<not> list_ex (\<lambda>a. char_eq ic a c) as)"

text \<open>
  \<open>rx_match ic ts b s\<close>: some prefix of \<open>s\<close> matches the terms \<open>ts\<close>; \<open>ic\<close> is the \<open>i\<close>
  flag and \<open>b\<close> says that \<open>s\<close> starts at the start of the input.
\<close>

fun rx_match :: "bool \<Rightarrow> rx \<Rightarrow> bool \<Rightarrow> string \<Rightarrow> bool" where
  "rx_match ic [] b s = True"
| "rx_match ic (Bol # ts) b s = (b \<and> rx_match ic ts b s)"
| "rx_match ic (Eol # ts) b s = (s = [] \<and> rx_match ic ts b s)"
| "rx_match ic (Atom c One # ts) b [] = False"
| "rx_match ic (Atom c One # ts) b (x # xs) = (class_matches ic c x \<and> rx_match ic ts False xs)"
| "rx_match ic (Atom c Opt # ts) b [] = rx_match ic ts b []"
| "rx_match ic (Atom c Opt # ts) b (x # xs) =
     (rx_match ic ts b (x # xs) \<or> (class_matches ic c x \<and> rx_match ic ts False xs))"
| "rx_match ic (Atom c Star # ts) b [] = rx_match ic ts b []"
| "rx_match ic (Atom c Star # ts) b (x # xs) =
     (rx_match ic ts b (x # xs) \<or>
      (class_matches ic c x \<and> rx_match ic (Atom c Star # ts) False xs))"
| "rx_match ic (Atom c Plus # ts) b [] = False"
| "rx_match ic (Atom c Plus # ts) b (x # xs) =
     (class_matches ic c x \<and> rx_match ic (Atom c Star # ts) False xs)"

text \<open>The search of \<open>test\<close>: every start index from 0 to the length of the input.\<close>

fun rx_search :: "bool \<Rightarrow> rx \<Rightarrow> bool \<Rightarrow> string \<Rightarrow> bool" where
  "rx_search ic ts b [] = rx_match ic ts b []"
| "rx_search ic ts b (x # xs) = (rx_match ic ts b (x # xs) \<or> rx_search ic ts False xs)"

definition rx_test :: "rx \<Rightarrow> string \<Rightarrow> bool" where
  "rx_test ts s = rx_search False ts True s"

section \<open>types.ts\<close>

datatype SafeRegexReason =
    ok
  | pattern_too_long
  | nested_quantifiers
  | overlapping_alternation
  | catastrophic_backtracking
  | invalid_syntax
  | execution_timeout

text \<open>
  \<open>PatternAnalysis\<close>: \<open>reason\<close> and \<open>message\<close> are optional properties. The fields carry
  a prefix because \<open>SafeRegexResult\<close> has fields of the same names.
\<close>

record PatternAnalysis =
  a_safe :: bool
  a_reason :: "SafeRegexReason option"
  a_message :: "string option"

section \<open>analyze.ts\<close>

record dangerous =
  d_regex :: rx
  d_reason :: SafeRegexReason
  d_message :: string

definition sig_nested :: rx where
  \<comment> \<open>\<open>/\([^)]*[+*][^)]*\)[+*]/\<close>\<close>
  "sig_nested =
     [Atom (Lit CHR ''('') One, Atom (NotIn '')'') Star, Atom (In ''+*'') One,
      Atom (NotIn '')'') Star, Atom (Lit CHR '')'') One, Atom (In ''+*'') One]"

definition sig_alternation :: rx where
  \<comment> \<open>\<open>/\([^)]*\|[^)]*\)[+*]/\<close>\<close>
  "sig_alternation =
     [Atom (Lit CHR ''('') One, Atom (NotIn '')'') Star, Atom (Lit CHR ''|'') One,
      Atom (NotIn '')'') Star, Atom (Lit CHR '')'') One, Atom (In ''+*'') One]"

definition sig_repeated :: rx where
  \<comment> \<open>\<open>/\([^)]+\)\{[0-9,]+\}[+*]?/\<close>\<close>
  "sig_repeated =
     [Atom (Lit CHR ''('') One, Atom (NotIn '')'') Plus, Atom (Lit CHR '')'') One,
      Atom (Lit CHR ''{'') One, Atom (In ''0123456789,'') Plus, Atom (Lit CHR ''}'') One,
      Atom (In ''+*'') Opt]"

definition sig_deep :: rx where
  \<comment> \<open>\<open>/\([^)]*\([^)]*[+*]\)[^)]*[+*]\)/\<close>\<close>
  "sig_deep =
     [Atom (Lit CHR ''('') One, Atom (NotIn '')'') Star, Atom (Lit CHR ''('') One,
      Atom (NotIn '')'') Star, Atom (In ''+*'') One, Atom (Lit CHR '')'') One,
      Atom (NotIn '')'') Star, Atom (In ''+*'') One, Atom (Lit CHR '')'') One]"

definition sig_classes :: rx where
  \<comment> \<open>\<open>/\[[^\]]+\][+*]\[[^\]]+\][+*]/\<close>\<close>
  "sig_classes =
     [Atom (Lit CHR ''['') One, Atom (NotIn '']'') Plus, Atom (Lit CHR '']'') One,
      Atom (In ''+*'') One,
      Atom (Lit CHR ''['') One, Atom (NotIn '']'') Plus, Atom (Lit CHR '']'') One,
      Atom (In ''+*'') One]"

definition DANGEROUS_PATTERNS :: "dangerous list" where
  "DANGEROUS_PATTERNS =
     [\<lparr>d_regex = sig_nested, d_reason = nested_quantifiers,
       d_message = ''Pattern contains nested quantifiers which can cause exponential backtracking''\<rparr>,
      \<lparr>d_regex = sig_alternation, d_reason = overlapping_alternation,
       d_message = ''Pattern contains alternation with quantifier which may cause backtracking''\<rparr>,
      \<lparr>d_regex = sig_repeated, d_reason = catastrophic_backtracking,
       d_message = ''Pattern contains repeated group which may cause backtracking''\<rparr>,
      \<lparr>d_regex = sig_deep, d_reason = nested_quantifiers,
       d_message = ''Pattern contains deeply nested quantifiers''\<rparr>,
      \<lparr>d_regex = sig_classes, d_reason = catastrophic_backtracking,
       d_message = ''Pattern contains overlapping character classes with quantifiers''\<rparr>]"

text \<open>
  \<open>countQuantifierNesting\<close>: the \<open>for\<close> loop over the indices, as a recursion over the
  characters that are left. \<open>prev\<close> is \<open>pattern[i - 1]\<close>, which is \<open>undefined\<close> (\<open>None\<close>)
  at index 0; the state is \<open>(maxDepth, currentDepth, inGroup)\<close>.
\<close>

fun countQuantifierNesting_loop :: "char option \<Rightarrow> string \<Rightarrow> int \<times> int \<times> int \<Rightarrow> int" where
  "countQuantifierNesting_loop prev [] (maxDepth, currentDepth, inGroup) = maxDepth"
| "countQuantifierNesting_loop prev (c # cs) (maxDepth, currentDepth, inGroup) =
     (let inGroup' =
            (if c = CHR ''('' \<and> prev \<noteq> Some bs then inGroup + 1
             else if c = CHR '')'' \<and> prev \<noteq> Some bs then max 0 (inGroup - 1)
             else inGroup);
          (maxDepth', currentDepth') =
            (if (c = CHR ''+'' \<or> c = CHR ''*'' \<or> c = CHR ''?'') \<and> prev \<noteq> Some bs
             then (if inGroup' > 0 then (max maxDepth inGroup', inGroup')
                   else (maxDepth, currentDepth))
             else (maxDepth, currentDepth))
      in countQuantifierNesting_loop (Some c) cs (maxDepth', currentDepth', inGroup'))"

definition countQuantifierNesting :: "string \<Rightarrow> int" where
  "countQuantifierNesting pattern = countQuantifierNesting_loop None pattern (0, 0, 0)"

text \<open>
  The decimal text of a number in a template string. JavaScript prints an integer below
  \<open>10^21\<close> in plain decimal, which is what this does for every integer.
\<close>

fun digits_of :: "nat \<Rightarrow> string" where
  "digits_of n =
     (if n < 10 then [char_of (48 + n)] else digits_of (n div 10) @ [char_of (48 + n mod 10)])"

declare digits_of.simps [simp del]

definition number_to_string :: "int \<Rightarrow> string" where
  "number_to_string n = (if n < 0 then CHR ''-'' # digits_of (nat (- n)) else digits_of (nat n))"

text \<open>The \<open>for ... of\<close> loop of \<open>analyzePattern\<close>: the first signature that matches.\<close>

fun first_dangerous :: "dangerous list \<Rightarrow> string \<Rightarrow> dangerous option" where
  "first_dangerous [] pattern = None"
| "first_dangerous (d # ds) pattern =
     (if rx_test (d_regex d) pattern then Some d else first_dangerous ds pattern)"

definition analyzePattern :: "string \<Rightarrow> PatternAnalysis" where
  "analyzePattern pattern =
     (case first_dangerous DANGEROUS_PATTERNS pattern of
        Some d \<Rightarrow> \<lparr>a_safe = False, a_reason = Some (d_reason d), a_message = Some (d_message d)\<rparr>
      | None \<Rightarrow>
          (let nestingDepth = countQuantifierNesting pattern in
           if nestingDepth > 2
           then \<lparr>a_safe = False, a_reason = Some nested_quantifiers,
                 a_message = Some (''Pattern has excessive quantifier nesting depth ('' @
                                   number_to_string nestingDepth @ '')'')\<rparr>
           else \<lparr>a_safe = True, a_reason = Some ok, a_message = None\<rparr>))"

definition quickSafetyCheck :: "string \<Rightarrow> bool" where
  "quickSafetyCheck pattern =
     (if \<not> rx_test [Atom (In ''+*?'') One] pattern then True
      else if \<not> rx_test [Atom (In ''()'') One] pattern then True
      else if rx_test [Bol, Atom (Lit CHR ''^'') One, Atom (NotIn ''+*?()'') Plus,
                       Atom (Lit CHR ''$'') One, Eol] pattern then True
      else False)"

section \<open>types.ts: configuration and result\<close>

text \<open>
  The callbacks are functions of the caller with effects of their own. A callback is
  modelled as a function on the caller's world \<open>'w\<close>; an operation that may call one takes
  the world and returns it, changed by exactly the calls that were made.
\<close>

record 'w SafeRegexConfig =
  maxLength :: int
  timeoutMs :: int
  maxBacktrackDepth :: int
  onBlock :: "(string \<Rightarrow> string \<Rightarrow> 'w \<Rightarrow> 'w) option"
  onWarning :: "(string \<Rightarrow> string \<Rightarrow> 'w \<Rightarrow> 'w) option"

definition DEFAULT_CONFIG :: "'w SafeRegexConfig" where
  "DEFAULT_CONFIG =
     \<lparr>maxLength = 500, timeoutMs = 1000, maxBacktrackDepth = 100000,
      onBlock = None, onWarning = None\<rparr>"

record 'r SafeRegexResult =
  safe :: bool
  regex :: "'r option"
  error :: "string option"
  reason :: "SafeRegexReason option"

section \<open>The native engine\<close>

text \<open>
  \<open>new RegExp(pattern, flags)\<close> and \<open>regex.test(input)\<close> belong to the host runtime, not to
  this repository, so the facade takes the engine as a parameter: \<open>compile\<close> returns the
  compiled object or what the constructor throws, \<open>test\<close> is the match test of a compiled
  object (a function of the input for an object without the \<open>g\<close> and \<open>y\<close> flags).
\<close>

datatype thrown =
    Error string        \<comment> \<open>an \<open>Error\<close> object and its \<open>message\<close>\<close>
  | NonError            \<comment> \<open>any other thrown value\<close>

record 'r engine =
  compile :: "string \<Rightarrow> string option \<Rightarrow> thrown + 'r"
  test :: "'r \<Rightarrow> string \<Rightarrow> bool"

section \<open>safe-regex.ts\<close>

datatype notify_type = block | warning

definition notify ::
  "'w SafeRegexConfig \<Rightarrow> notify_type \<Rightarrow> string \<Rightarrow> string \<Rightarrow> 'w \<Rightarrow> 'w" where
  "notify config type message pattern w =
     (let w1 = (if type = block
                then (case onBlock config of Some f \<Rightarrow> f message pattern w | None \<Rightarrow> w)
                else w)
      in if type = warning
         then (case onWarning config of Some f \<Rightarrow> f message pattern w1 | None \<Rightarrow> w1)
         else w1)"

text \<open>The \<open>try\<close>/\<open>catch\<close> around \<open>new RegExp(pattern, flags)\<close>.\<close>

definition try_compile :: "'r engine \<Rightarrow> string \<Rightarrow> string option \<Rightarrow> 'r SafeRegexResult" where
  "try_compile eng pattern flags =
     (case compile eng pattern flags of
        Inr r \<Rightarrow> \<lparr>safe = True, regex = Some r, error = None, reason = Some ok\<rparr>
      | Inl e \<Rightarrow>
          \<lparr>safe = False, regex = None,
           error = Some (''Invalid regex syntax: '' @
                         (case e of Error m \<Rightarrow> m | NonError \<Rightarrow> ''Unknown error'')),
           reason = Some invalid_syntax\<rparr>)"

definition create ::
  "'r engine \<Rightarrow> 'w SafeRegexConfig \<Rightarrow> string \<Rightarrow> string option \<Rightarrow> 'w
   \<Rightarrow> 'r SafeRegexResult \<times> 'w" where
  "create eng config pattern flags w =
     (if int (length pattern) > maxLength config
      then
        (\<lparr>safe = False, regex = None,
          error = Some (''Pattern exceeds maximum length of '' @
                        number_to_string (maxLength config)),
          reason = Some pattern_too_long\<rparr>,
         notify config block
           (''Pattern exceeds maximum length of '' @ number_to_string (maxLength config))
           pattern w)
      else if \<not> quickSafetyCheck pattern
      then
        (let analysis = analyzePattern pattern in
         if \<not> a_safe analysis
         then
           (\<lparr>safe = False, regex = None, error = a_message analysis,
             reason = a_reason analysis\<rparr>,
            notify config block
              (case a_message analysis of
                 None \<Rightarrow> ''Pattern blocked''
               | Some m \<Rightarrow> if m = [] then ''Pattern blocked'' else m)
              pattern w)
         else (try_compile eng pattern flags, w))
      else (try_compile eng pattern flags, w))"

text \<open>
  \<open>input.replace(/[...]/g, '\\$&')\<close>: every character of the bracket class gets a
  backslash in front.
\<close>

definition escape_chars :: "string \<Rightarrow> string \<Rightarrow> string" where
  "escape_chars cls s = concat (map (\<lambda>c. if c \<in> set cls then [bs, c] else [c]) s)"

text \<open>
  \<open>s.replace(/needle/g, repl)\<close> for a regex that is a literal text and a replacement
  without \<open>$\<close>: the occurrences from left to right, not overlapping, the replacement not
  scanned again. The needles of the source are not empty.
\<close>

function replace_all :: "string \<Rightarrow> string \<Rightarrow> string \<Rightarrow> string" where
  "replace_all needle repl [] = []"
| "replace_all needle repl (c # cs) =
     (if needle \<noteq> [] \<and> take (length needle) (c # cs) = needle
      then repl @ replace_all needle repl (drop (length needle) (c # cs))
      else c # replace_all needle repl cs)"
  by pat_completeness auto
termination
  by (relation "measure (\<lambda>(needle, repl, s). length s)") auto

definition glob_pattern :: "string \<Rightarrow> string" where
  "glob_pattern glob =
     (let pattern =
            replace_all ''{{GLOBSTAR}}'' ''.*''
              (replace_all ''?'' ''[^/]''
                (replace_all ''*'' ''[^/]*''
                  (replace_all ''**'' ''{{GLOBSTAR}}''
                    (escape_chars (''.+^${}()|[]'' @ [bs]) glob))))
      in ''^'' @ pattern @ ''$'')"

definition globToRegex ::
  "'r engine \<Rightarrow> 'w SafeRegexConfig \<Rightarrow> string \<Rightarrow> 'w \<Rightarrow> 'r SafeRegexResult \<times> 'w" where
  "globToRegex eng config glob w = create eng config (glob_pattern glob) (Some ''i'') w"

definition fromUserInput ::
  "'r engine \<Rightarrow> 'w SafeRegexConfig \<Rightarrow> string \<Rightarrow> 'w \<Rightarrow> 'r SafeRegexResult \<times> 'w" where
  "fromUserInput eng config input w =
     (let escaped = escape_chars (''.*+?^${}()|[]'' @ [bs]) input
      in create eng config escaped (Some ''i'') w)"

definition escapeForRegex :: "string \<Rightarrow> string" where
  "escapeForRegex input = escape_chars (''.*+?^${}()|[]'' @ [bs]) input"

text \<open>
  The convenience functions build a facade with the default configuration
  (\<open>new SafeRegex()\<close> merges nothing onto \<open>DEFAULT_CONFIG\<close>) and call it.
\<close>

definition createSafeRegex ::
  "'r engine \<Rightarrow> string \<Rightarrow> string option \<Rightarrow> 'w \<Rightarrow> 'r SafeRegexResult \<times> 'w" where
  "createSafeRegex eng pattern flags w = create eng DEFAULT_CONFIG pattern flags w"

definition globToSafeRegex ::
  "'r engine \<Rightarrow> string \<Rightarrow> 'w \<Rightarrow> 'r SafeRegexResult \<times> 'w" where
  "globToSafeRegex eng glob w = globToRegex eng DEFAULT_CONFIG glob w"

text \<open>
  A callback that records its calls, as the mock functions of the tests do: the world is the
  list of the calls made so far.
\<close>

definition record_call :: "string \<Rightarrow> string \<Rightarrow> (string \<times> string) list \<Rightarrow> (string \<times> string) list" where
  "record_call message pattern calls = calls @ [(message, pattern)]"

section \<open>What the native engine does on simple patterns\<close>

text \<open>
  Modelled from the spec: the native regular-expression engine, an external collaborator
  (``compile(pattern, flags) -> handle | syntax error'' and ``handle.test(input) -> boolean''),
  which is the host runtime's \<open>RegExp\<close> and has no source in this repository. The claims
  about what a compiled pattern matches need its meaning, so the ECMAScript reading of a
  pattern text is written out for the patterns that \<open>globToRegex\<close> and \<open>fromUserInput\<close>
  build: \<open>^\<close>, \<open>$\<close>, \<open>.\<close>, a backslash before a syntax character or \<open>/\<close>, a bracket
  class of plain characters, any other character that is not a syntax character, and one of
  \<open>*\<close>, \<open>+\<close>, \<open>?\<close> behind such an atom. \<open>js_parse\<close> answers \<open>None\<close> for every other
  pattern text (groups, alternation, braces, class ranges, other escapes, lazy quantifiers and
  texts the engine rejects): these are outside the model, not errors.
\<close>

fun js_class :: "string \<Rightarrow> (string \<times> string) option" where
  "js_class [] = None"
| "js_class (c # cs) =
     (if c = CHR '']'' then Some ([], cs)
      else if c = bs \<or> c = CHR ''-'' \<or> c = CHR ''^'' then None
      else (case js_class cs of None \<Rightarrow> None | Some (ms, rest) \<Rightarrow> Some (c # ms, rest)))"

fun js_atom :: "string \<Rightarrow> (rx_class \<times> string) option" where
  "js_atom [] = None"
| "js_atom (c # cs) =
     (if c = bs then
        (case cs of
           [] \<Rightarrow> None
         | e # rest \<Rightarrow> if e \<in> set (''^$.*+?()[]{}|/'' @ [bs]) then Some (Lit e, rest) else None)
      else if c = CHR ''.'' then Some (Dot, cs)
      else if c = CHR ''['' then
        (case cs of
           [] \<Rightarrow> None
         | d # rest \<Rightarrow>
             if d = CHR ''^''
             then (case js_class rest of None \<Rightarrow> None | Some (ms, r) \<Rightarrow> Some (NotIn ms, r))
             else (case js_class cs of None \<Rightarrow> None | Some (ms, r) \<Rightarrow> Some (In ms, r)))
      else if c \<in> set ''^$*+?()]{}|'' then None
      else Some (Lit c, cs))"

fun js_quant :: "string \<Rightarrow> rx_quant \<times> string" where
  "js_quant [] = (One, [])"
| "js_quant (c # cs) =
     (if c = CHR ''*'' then (Star, cs)
      else if c = CHR ''+'' then (Plus, cs)
      else if c = CHR ''?'' then (Opt, cs)
      else (One, c # cs))"

lemma js_class_length: "js_class s = Some (ms, rest) \<Longrightarrow> length rest < length s"
  by (induction s arbitrary: ms rest) (auto split: if_splits option.splits)

lemma js_atom_length: "js_atom s = Some (a, rest) \<Longrightarrow> length rest < length s"
  by (cases s) (auto split: if_splits option.splits list.splits dest: js_class_length)

lemma js_quant_length: "js_quant s = (q, rest) \<Longrightarrow> length rest \<le> length s"
  by (cases s) (auto split: if_splits)

function js_parse :: "string \<Rightarrow> rx option" where
  "js_parse [] = Some []"
| "js_parse (c # cs) =
     (if c = CHR ''^'' then map_option ((#) Bol) (js_parse cs)
      else if c = CHR ''$'' then map_option ((#) Eol) (js_parse cs)
      else
        (case js_atom (c # cs) of
           None \<Rightarrow> None
         | Some (a, rest) \<Rightarrow>
             (case js_quant rest of
                (q, rest') \<Rightarrow> map_option ((#) (Atom a q)) (js_parse rest'))))"
  by pat_completeness auto
termination
proof (relation "measure length", goal_cases)
  case 1
  show ?case by simp
next
  case (2 c cs)
  then show ?case by simp
next
  case (3 c cs)
  then show ?case by simp
next
  case (4 c cs x2 a rest q rest')
  then have "js_atom (c # cs) = Some (a, rest)" by (simp del: js_atom.simps)
  then have "length rest < length (c # cs)" by (rule js_atom_length)
  moreover from 4 have "length rest' \<le> length rest" by (simp add: js_quant_length[OF sym])
  ultimately show ?case by simp
qed

text \<open>The flags the model reads: none, the empty text, and \<open>i\<close>.\<close>

definition js_flags :: "string option \<Rightarrow> bool option" where
  "js_flags flags =
     (case flags of
        None \<Rightarrow> Some False
      | Some f \<Rightarrow> if f = [] then Some False else if f = ''i'' then Some True else None)"

text \<open>
  An engine conforms when, on every pattern text and flags of the model, it compiles without
  error and the compiled object's \<open>test\<close> is the search of the pattern in the input.
\<close>

definition conforms :: "'r engine \<Rightarrow> bool" where
  "conforms eng \<longleftrightarrow>
     (\<forall>pattern flags ts ic.
        js_parse pattern = Some ts \<longrightarrow> js_flags flags = Some ic \<longrightarrow>
        (\<exists>r. compile eng pattern flags = Inr r \<and>
             (\<forall>input. test eng r input = rx_search ic ts True input)))"

text \<open>
  The engine that is the model itself, and throws on everything outside it. It is there
  to show that an engine can conform; what it does outside the model is never used.
\<close>

definition model_engine :: "(rx \<times> bool) engine" where
  "model_engine =
     \<lparr>compile = (\<lambda>pattern flags.
        (case js_parse pattern of
           None \<Rightarrow> Inl (Error ''outside the model'')
         | Some ts \<Rightarrow>
             (case js_flags flags of
                None \<Rightarrow> Inl (Error ''outside the model'')
              | Some ic \<Rightarrow> Inr (ts, ic)))),
      test = (\<lambda>r input. rx_search (snd r) (fst r) True input)\<rparr>"

section \<open>safe-regex.ts: testWithTimeout\<close>

text \<open>
  Modelled from the spec: the timer primitive (``schedule(delayMs, callback) -> cancellable
  handle'') and the promise, which are the host runtime's and have no source in this
  repository. The host state holds a clock in milliseconds, the deadline of the armed timer
  (\<open>None\<close> when none is armed or it was cleared), the promise (\<open>None\<close> while it is pending;
  \<open>resolve\<close> and \<open>reject\<close> act on a pending promise only) and the caller's world. The native
  match is a host call too: \<open>test_run\<close> gives what \<open>regex.test(input)\<close> returns or throws
  and the milliseconds it runs, \<open>source\<close> is \<open>regex.source\<close>.

  \<open>executor\<close> is the function given to \<open>new Promise\<close>, which the host runs at once and to
  its end: \<open>setTimeout\<close> arms the timer, \<open>regex.test(input)\<close> runs while the clock advances
  (no callback runs during a synchronous call), then \<open>clearTimeout\<close> and \<open>resolve\<close>, or
  \<open>clearTimeout\<close> and \<open>reject\<close> in the \<open>catch\<close> branch. \<open>timeout_callback\<close> is the arrow
  function given to \<open>setTimeout\<close>. \<open>run_timers\<close> is the host after the executor has
  returned: a timer that is still armed fires at its deadline.
\<close>

datatype 'a settled = Resolved 'a | Rejected thrown

record 'r native =
  test_run :: "'r \<Rightarrow> string \<Rightarrow> (thrown + bool) \<times> int"
  source :: "'r \<Rightarrow> string"

record 'w host_state =
  clock :: int
  timer :: "int option"
  promise :: "bool settled option"
  world :: 'w

definition settle :: "bool settled \<Rightarrow> 'w host_state \<Rightarrow> 'w host_state" where
  "settle v st = (case promise st of None \<Rightarrow> st\<lparr>promise := Some v\<rparr> | Some u \<Rightarrow> st)"

definition timeout_callback :: "'w SafeRegexConfig \<Rightarrow> string \<Rightarrow> 'w host_state \<Rightarrow> 'w host_state" where
  "timeout_callback config src st =
     (let st1 = st\<lparr>world :=
                   notify config warning
                     (''Regex execution exceeded '' @ number_to_string (timeoutMs config) @
                      ''ms timeout'')
                     src (world st)\<rparr>
      in settle (Rejected (Error (''Regex execution timed out after '' @
                                  number_to_string (timeoutMs config) @ ''ms''))) st1)"

definition executor ::
  "'r native \<Rightarrow> 'w SafeRegexConfig \<Rightarrow> 'r \<Rightarrow> string \<Rightarrow> 'w host_state \<Rightarrow> 'w host_state" where
  "executor host config r input st =
     (let st1 = st\<lparr>timer := Some (clock st + timeoutMs config)\<rparr>;
          st2 = st1\<lparr>clock := clock st1 + snd (test_run host r input)\<rparr>
      in case fst (test_run host r input) of
           Inr result \<Rightarrow> settle (Resolved result) (st2\<lparr>timer := None\<rparr>)
         | Inl err \<Rightarrow> settle (Rejected err) (st2\<lparr>timer := None\<rparr>))"

definition run_timers :: "'w SafeRegexConfig \<Rightarrow> string \<Rightarrow> 'w host_state \<Rightarrow> 'w host_state" where
  "run_timers config src st =
     (case timer st of
        None \<Rightarrow> st
      | Some due \<Rightarrow> timeout_callback config src (st\<lparr>timer := None, clock := max (clock st) due\<rparr>))"

definition testWithTimeout ::
  "'r native \<Rightarrow> 'w SafeRegexConfig \<Rightarrow> 'r \<Rightarrow> string \<Rightarrow> 'w \<Rightarrow> 'w host_state" where
  "testWithTimeout host config r input w =
     run_timers config (source host r)
       (executor host config r input \<lparr>clock = 0, timer = None, promise = None, world = w\<rparr>)"

section \<open>Notions used in the proofs\<close>

text \<open>
  \<open>guarded M prev s\<close>: every character of \<open>s\<close> that is in \<open>M\<close> stands right behind a
  backslash (\<open>prev\<close> is the character before \<open>s\<close>). \<open>has_pair p q s\<close>: \<open>s\<close> has two
  neighbouring characters, the first with \<open>p\<close> and the second with \<open>q\<close>. \<open>literal T\<close>: the
  pattern that is the characters of \<open>T\<close>, one after the other.
\<close>

fun guarded :: "char set \<Rightarrow> char option \<Rightarrow> string \<Rightarrow> bool" where
  "guarded M prev [] = True"
| "guarded M prev (c # cs) = ((c \<in> M \<longrightarrow> prev = Some bs) \<and> guarded M (Some c) cs)"

fun has_pair :: "(char \<Rightarrow> bool) \<Rightarrow> (char \<Rightarrow> bool) \<Rightarrow> string \<Rightarrow> bool" where
  "has_pair p q (x # y # s) = ((p x \<and> q y) \<or> has_pair p q (y # s))"
| "has_pair p q s = False"

definition literal :: "string \<Rightarrow> rx" where
  "literal T = map (\<lambda>c. Atom (Lit c) One) T"

section \<open>Facts about the matcher\<close>

lemma rx_match_start: "rx_match ic ts False s \<Longrightarrow> rx_match ic ts b s"
  by (induction ic ts b s rule: rx_match.induct) auto

lemma rx_match_append: "Eol \<notin> set ts \<Longrightarrow> rx_match ic ts b s \<Longrightarrow> rx_match ic ts b (s @ post)"
proof (induction ic ts b s rule: rx_match.induct)
  case (6 ic c ts b)
  then show ?case by (cases post) (auto intro: rx_match_start)
next
  case (8 ic c ts b)
  then show ?case by (cases post) (auto intro: rx_match_start)
qed auto

lemma rx_match_star_run:
  "\<forall>x\<in>set u. class_matches ic c x \<Longrightarrow> rx_match ic ts False v \<Longrightarrow>
   rx_match ic (Atom c Star # ts) b (u @ v)"
proof (induction u arbitrary: b)
  case Nil
  then show ?case by (cases v) (auto intro: rx_match_start)
next
  case (Cons x u)
  then show ?case by simp
qed

lemma rx_search_offset: "rx_match ic ts False s \<Longrightarrow> rx_search ic ts b (pre @ s)"
proof (induction pre arbitrary: b)
  case Nil
  then show ?case by (cases s) (auto intro: rx_match_start)
next
  case (Cons x pre)
  then show ?case by simp
qed

lemma rx_test_single: "rx_test [Atom c One] s \<longleftrightarrow> (\<exists>x\<in>set s. class_matches False c x)"
proof -
  have "rx_search False [Atom c One] b s \<longleftrightarrow> (\<exists>x\<in>set s. class_matches False c x)" for b
    by (induction s arbitrary: b) auto
  then show ?thesis by (simp add: rx_test_def)
qed

lemma rx_match_excluded:
  "Eol \<in> set ts \<Longrightarrow> \<forall>c q. Atom c q \<in> set ts \<longrightarrow> \<not> class_matches ic c z \<Longrightarrow>
   rx_match ic ts b s \<Longrightarrow> z \<notin> set s"
  by (induction ic ts b s rule: rx_match.induct) auto

lemma rx_search_bol: "rx_search ic (Bol # ts) False s = False"
  by (induction s) auto

lemma rx_test_bol: "rx_test (Bol # ts) s = rx_match False ts True s"
  by (cases s) (auto simp: rx_test_def rx_search_bol)


lemma char_eq_False [simp]: "char_eq False a b \<longleftrightarrow> a = b"
  by (simp add: char_eq_def)

lemma notify_block:
  "notify config block m p w = (case onBlock config of Some f \<Rightarrow> f m p w | None \<Rightarrow> w)"
  by (simp add: notify_def)

lemma quickSafetyCheck_iff:
  "quickSafetyCheck P \<longleftrightarrow>
     (\<forall>x\<in>set P. x \<notin> set ''+*?'') \<or> (\<forall>x\<in>set P. x \<notin> set ''()'')"
proof -
  let ?ts = "[Atom (Lit CHR ''^'') One, Atom (NotIn ''+*?()'') Plus, Atom (Lit CHR ''$'') One, Eol]"
  have "\<forall>x\<in>set P. x \<notin> set ''+*?''" if m: "rx_match False ?ts True P"
  proof -
    have "z \<notin> set P" if "z \<in> set ''+*?''" for z
      using m that by (intro rx_match_excluded[OF _ _ m]) auto
    then show ?thesis by blast
  qed
  then show ?thesis
    unfolding quickSafetyCheck_def rx_test_single rx_test_bol
    by (auto simp del: rx_match.simps)
qed

lemma sig_nested_match:
  assumes "CHR '')'' \<notin> set body" and "CHR ''+'' \<in> set body \<or> CHR ''*'' \<in> set body"
    and "q = CHR ''+'' \<or> q = CHR ''*''"
  shows "rx_test sig_nested (pre @ ''('' @ body @ '')'' @ [q] @ post)"
proof -
  from assms(2) obtain p where p: "p \<in> set body" "p = CHR ''+'' \<or> p = CHR ''*''" by blast
  then obtain b1 b2 where body: "body = b1 @ p # b2" by (auto dest: split_list)
  let ?t4 = "[Atom (Lit CHR '')'') One, Atom (In ''+*'') One]"
  have m1: "rx_match False ?t4 False ('')'' @ [q] @ post)"
    using assms(3) by auto
  have "rx_match False (Atom (NotIn '')'') Star # ?t4) False (b2 @ '')'' @ [q] @ post)"
    using assms(1) body by (intro rx_match_star_run m1) auto
  then have m3: "rx_match False (Atom (In ''+*'') One # Atom (NotIn '')'') Star # ?t4) False
      (p # b2 @ '')'' @ [q] @ post)"
    using p(2) by auto
  have "rx_match False (Atom (NotIn '')'') Star # Atom (In ''+*'') One # Atom (NotIn '')'') Star # ?t4)
      False (b1 @ p # b2 @ '')'' @ [q] @ post)"
    using assms(1) body by (intro rx_match_star_run m3) auto
  then have "rx_match False sig_nested False (''('' @ body @ '')'' @ [q] @ post)"
    by (simp add: sig_nested_def body)
  then show ?thesis
    unfolding rx_test_def by (rule rx_search_offset)
qed

lemma guarded_escape_chars:
  "M \<subseteq> set cls \<Longrightarrow> bs \<notin> M \<Longrightarrow> guarded M prev (escape_chars cls T)"
  by (induction T arbitrary: prev) (auto simp: escape_chars_def)

lemma guarded_mono: "guarded M prev s \<Longrightarrow> N \<subseteq> M \<Longrightarrow> guarded N prev s"
  by (induction s arbitrary: prev) auto

lemma guarded_no_pair:
  "guarded M prev s \<Longrightarrow> has_pair p q s \<Longrightarrow> \<forall>x y. p x \<and> q y \<longrightarrow> y \<in> M \<and> x \<noteq> bs \<Longrightarrow> False"
  by (induction p q s arbitrary: prev rule: has_pair.induct) auto

lemma has_pair_Cons: "has_pair p q s \<Longrightarrow> has_pair p q (x # s)"
  by (cases s) auto

lemma rx_match_pair_aux:
  "rx_match ic ts b s \<Longrightarrow>
   \<forall>ts1. ts = ts1 @ Atom c1 One # Atom c2 One # ts2 \<longrightarrow>
     has_pair (class_matches ic c1) (class_matches ic c2) s"
proof (induction ic ts b s rule: rx_match.induct)
  case (5 ic c ts b x xs)
  show ?case
  proof (intro allI impI)
    fix ts1
    assume eq: "Atom c One # ts = ts1 @ Atom c1 One # Atom c2 One # ts2"
    show "has_pair (class_matches ic c1) (class_matches ic c2) (x # xs)"
    proof (cases ts1)
      case Nil
      with 5 eq show ?thesis by (cases xs) auto
    next
      case (Cons t ts1')
      with 5 eq have "has_pair (class_matches ic c1) (class_matches ic c2) xs" by auto
      then show ?thesis by (rule has_pair_Cons)
    qed
  qed
qed (auto simp: Cons_eq_append_conv intro: has_pair_Cons)

lemma rx_match_pair:
  "rx_match ic ts b s \<Longrightarrow> ts = ts1 @ Atom c1 One # Atom c2 One # ts2 \<Longrightarrow>
   has_pair (class_matches ic c1) (class_matches ic c2) s"
  using rx_match_pair_aux by blast

lemma rx_search_pair:
  "rx_search ic ts b s \<Longrightarrow> ts = ts1 @ Atom c1 One # Atom c2 One # ts2 \<Longrightarrow>
   has_pair (class_matches ic c1) (class_matches ic c2) s"
  by (induction ic ts b s rule: rx_search.induct) (auto dest: rx_match_pair intro: has_pair_Cons)

lemma guarded_nesting:
  "guarded {CHR ''('', CHR '')'', CHR ''+'', CHR ''*'', CHR ''?''} prev s \<Longrightarrow>
   countQuantifierNesting_loop prev s (m, c, 0) = m"
  by (induction s arbitrary: prev) auto


lemma guarded_not_dangerous:
  assumes g: "guarded {CHR ''('', CHR '')'', CHR ''+'', CHR ''*'', CHR ''?'', CHR ''{''} None P"
  shows "first_dangerous DANGEROUS_PATTERNS P = None"
proof -
  have no: "\<not> rx_test (ts1 @ Atom c1 One # Atom c2 One # ts2) P"
    if "\<forall>x y. class_matches False c1 x \<and> class_matches False c2 y \<longrightarrow>
          y \<in> {CHR ''('', CHR '')'', CHR ''+'', CHR ''*'', CHR ''?'', CHR ''{''} \<and> x \<noteq> bs"
    for ts1 c1 c2 ts2
  proof
    assume "rx_test (ts1 @ Atom c1 One # Atom c2 One # ts2) P"
    then have "has_pair (class_matches False c1) (class_matches False c2) P"
      unfolding rx_test_def by (rule rx_search_pair) simp
    with g show False using that by (rule guarded_no_pair)
  qed
  have 1: "\<not> rx_test sig_nested P"
    using no[of "Lit CHR '')''" "In ''+*''"
        "[Atom (Lit CHR ''('') One, Atom (NotIn '')'') Star, Atom (In ''+*'') One, Atom (NotIn '')'') Star]" "[]"]
    by (simp add: sig_nested_def)
  have 2: "\<not> rx_test sig_alternation P"
    using no[of "Lit CHR '')''" "In ''+*''"
        "[Atom (Lit CHR ''('') One, Atom (NotIn '')'') Star, Atom (Lit CHR ''|'') One, Atom (NotIn '')'') Star]" "[]"]
    by (simp add: sig_alternation_def)
  have 3: "\<not> rx_test sig_repeated P"
    using no[of "Lit CHR '')''" "Lit CHR ''{''"
        "[Atom (Lit CHR ''('') One, Atom (NotIn '')'') Plus]"
        "[Atom (In ''0123456789,'') Plus, Atom (Lit CHR ''}'') One, Atom (In ''+*'') Opt]"]
    by (simp add: sig_repeated_def)
  have 4: "\<not> rx_test sig_deep P"
    using no[of "In ''+*''" "Lit CHR '')''"
        "[Atom (Lit CHR ''('') One, Atom (NotIn '')'') Star, Atom (Lit CHR ''('') One, Atom (NotIn '')'') Star]"
        "[Atom (NotIn '')'') Star, Atom (In ''+*'') One, Atom (Lit CHR '')'') One]"]
    by (auto simp: sig_deep_def)
  have 5: "\<not> rx_test sig_classes P"
    using no[of "Lit CHR '']''" "In ''+*''"
        "[Atom (Lit CHR ''['') One, Atom (NotIn '']'') Plus]"
        "[Atom (Lit CHR ''['') One, Atom (NotIn '']'') Plus, Atom (Lit CHR '']'') One, Atom (In ''+*'') One]"]
    by (simp add: sig_classes_def)
  from 1 2 3 4 5 show ?thesis by (simp add: DANGEROUS_PATTERNS_def)
qed

lemma escaped_analysis:
  "analyzePattern (escapeForRegex T) = \<lparr>a_safe = True, a_reason = Some ok, a_message = None\<rparr>"
proof -
  let ?M = "{CHR ''('', CHR '')'', CHR ''+'', CHR ''*'', CHR ''?'', CHR ''{''}"
  have g: "guarded ?M None (escapeForRegex T)"
    unfolding escapeForRegex_def by (rule guarded_escape_chars) auto
  then have "guarded {CHR ''('', CHR '')'', CHR ''+'', CHR ''*'', CHR ''?''} None (escapeForRegex T)"
    by (rule guarded_mono) auto
  then have "countQuantifierNesting (escapeForRegex T) = 0"
    unfolding countQuantifierNesting_def by (rule guarded_nesting)
  with guarded_not_dangerous[OF g] show ?thesis
    by (simp add: analyzePattern_def)
qed

section \<open>The verdict of the analyzer\<close>

lemma first_dangerous_mem: "first_dangerous ds p = Some d \<Longrightarrow> d \<in> set ds"
  by (induction ds) (auto split: if_splits)

lemma dangerous_reasons:
  "d \<in> set DANGEROUS_PATTERNS \<Longrightarrow>
   d_reason d = nested_quantifiers \<or> d_reason d = overlapping_alternation \<or>
   d_reason d = catastrophic_backtracking"
  by (auto simp: DANGEROUS_PATTERNS_def)

lemma analyzePattern_cases:
  "analyzePattern p = \<lparr>a_safe = True, a_reason = Some ok, a_message = None\<rparr> \<or>
   (\<not> a_safe (analyzePattern p) \<and>
    a_reason (analyzePattern p) \<in>
      {Some nested_quantifiers, Some overlapping_alternation, Some catastrophic_backtracking})"
proof (cases "first_dangerous DANGEROUS_PATTERNS p")
  case None
  then show ?thesis by (simp add: analyzePattern_def Let_def)
next
  case (Some d)
  then have "d \<in> set DANGEROUS_PATTERNS" by (rule first_dangerous_mem)
  then have "d_reason d = nested_quantifiers \<or> d_reason d = overlapping_alternation \<or>
    d_reason d = catastrophic_backtracking" by (rule dangerous_reasons)
  with Some show ?thesis by (auto simp: analyzePattern_def)
qed

text \<open>
  Claim C9. For every pattern, the reason of the verdict of \<open>analyzePattern\<close> is one of
  \<open>ok\<close>, \<open>nested_quantifiers\<close>, \<open>overlapping_alternation\<close> and
  \<open>catastrophic_backtracking\<close> (so never \<open>pattern_too_long\<close>, \<open>invalid_syntax\<close> or
  \<open>execution_timeout\<close>, and never absent), and the verdict is safe exactly when the reason
  is \<open>ok\<close>.
\<close>

theorem analyzePattern_verdict:
  "a_reason (analyzePattern p) \<in>
     {Some ok, Some nested_quantifiers, Some overlapping_alternation,
      Some catastrophic_backtracking} \<and>
   a_safe (analyzePattern p) = (a_reason (analyzePattern p) = Some ok)"
proof (cases "first_dangerous DANGEROUS_PATTERNS p")
  case None
  then show ?thesis by (simp add: analyzePattern_def Let_def)
next
  case (Some d)
  then have "d \<in> set DANGEROUS_PATTERNS" by (rule first_dangerous_mem)
  then have "d_reason d = nested_quantifiers \<or> d_reason d = overlapping_alternation \<or>
    d_reason d = catastrophic_backtracking" by (rule dangerous_reasons)
  with Some show ?thesis by (auto simp: analyzePattern_def)
qed

section \<open>Escaped texts and conforming engines\<close>

lemma escapeForRegex_Cons:
  "escapeForRegex (c # T) =
     (if c \<in> set (''.*+?^${}()|[]'' @ [bs]) then bs # c # escapeForRegex T
      else c # escapeForRegex T)"
  by (simp add: escapeForRegex_def escape_chars_def)

lemma js_quant_escaped: "js_quant (escapeForRegex T) = (One, escapeForRegex T)"
  by (cases T) (auto simp: escapeForRegex_Cons escapeForRegex_def escape_chars_def)

lemma js_parse_escaped: "js_parse (escapeForRegex T) = Some (literal T)"
proof (induction T)
  case Nil
  then show ?case by (simp add: escapeForRegex_def escape_chars_def literal_def)
next
  case (Cons c T)
  show ?case
  proof (cases "c \<in> set (''.*+?^${}()|[]'' @ [bs])")
    case True
    then have "js_atom (bs # c # escapeForRegex T) = Some (Lit c, escapeForRegex T)" by auto
    then show ?thesis
      using True Cons by (simp add: escapeForRegex_Cons js_quant_escaped literal_def del: js_atom.simps)
  next
    case False
    then have "js_atom (c # escapeForRegex T) = Some (Lit c, escapeForRegex T)" by auto
    then show ?thesis
      using False Cons by (simp add: escapeForRegex_Cons js_quant_escaped literal_def del: js_atom.simps)
  qed
qed

lemma literal_match:
  "rx_match True (literal T) b s \<longleftrightarrow>
     (\<exists>u post. s = u @ post \<and> map canonicalize u = map canonicalize T)"
proof (induction T arbitrary: b s)
  case Nil
  then show ?case by (simp add: literal_def)
next
  case (Cons c T)
  show ?case
  proof (cases s)
    case Nil
    then show ?thesis by (simp add: literal_def)
  next
    case (Cons x xs)
    have "rx_match True (literal (c # T)) b (x # xs) \<longleftrightarrow>
        canonicalize c = canonicalize x \<and> rx_match True (literal T) False xs"
      by (simp add: literal_def char_eq_def)
    also have "\<dots> \<longleftrightarrow> canonicalize c = canonicalize x \<and>
        (\<exists>u post. xs = u @ post \<and> map canonicalize u = map canonicalize T)"
      by (simp add: Cons.IH)
    also have "\<dots> \<longleftrightarrow>
        (\<exists>u post. x # xs = u @ post \<and> map canonicalize u = map canonicalize (c # T))"
      (is "?A \<longleftrightarrow> ?B")
    proof
      assume ?A
      then obtain u post where "canonicalize c = canonicalize x" "xs = u @ post"
        "map canonicalize u = map canonicalize T" by blast
      then have "x # xs = (x # u) @ post \<and> map canonicalize (x # u) = map canonicalize (c # T)"
        by simp
      then show ?B by blast
    next
      assume ?B
      then obtain u post where *: "x # xs = u @ post" "map canonicalize u = map canonicalize (c # T)"
        by blast
      then obtain y u' where "u = y # u'" by (cases u) auto
      with * show ?A by auto
    qed
    finally show ?thesis using Cons by simp
  qed
qed

lemma literal_search:
  "rx_search True (literal T) b s \<longleftrightarrow>
     (\<exists>pre u post. s = pre @ u @ post \<and> map canonicalize u = map canonicalize T)"
proof (induction s arbitrary: b)
  case Nil
  then show ?case by (auto simp: literal_match)
next
  case (Cons x xs)
  have "(\<exists>pre u post. x # xs = pre @ u @ post \<and> map canonicalize u = map canonicalize T) \<longleftrightarrow>
      (\<exists>u post. x # xs = u @ post \<and> map canonicalize u = map canonicalize T) \<or>
      (\<exists>pre u post. xs = pre @ u @ post \<and> map canonicalize u = map canonicalize T)"
    (is "?L \<longleftrightarrow> ?A \<or> ?B")
  proof
    assume ?L
    then obtain pre u post where *: "x # xs = pre @ u @ post" "map canonicalize u = map canonicalize T"
      by blast
    show "?A \<or> ?B"
    proof (cases pre)
      case Nil
      with * show ?thesis by auto
    next
      case (Cons p pre')
      with * have "xs = pre' @ u @ post" by simp
      with *(2) show ?thesis by blast
    qed
  next
    assume "?A \<or> ?B"
    then show ?L
    proof
      assume ?A
      then obtain u post where "x # xs = [] @ u @ post" "map canonicalize u = map canonicalize T" by auto
      then show ?L by blast
    next
      assume ?B
      then obtain pre u post where "x # xs = (x # pre) @ u @ post" "map canonicalize u = map canonicalize T"
        by auto
      then show ?L by blast
    qed
  qed
  then show ?case by (simp add: Cons.IH literal_match)
qed


lemma model_engine_conforms: "conforms model_engine"
  by (auto simp: conforms_def model_engine_def)

lemma conforms_compile:
  assumes "conforms eng" and "js_parse pattern = Some ts"
  shows "\<exists>r. compile eng pattern (Some ''i'') = Inr r \<and>
    (\<forall>input. test eng r input = rx_search True ts True input)"
proof -
  have "js_flags (Some ''i'') = Some True" by (simp add: js_flags_def)
  with assms show ?thesis unfolding conforms_def by blast
qed

lemma create_passes:
  assumes "int (length P) \<le> maxLength config" and "quickSafetyCheck P \<or> a_safe (analyzePattern P)"
    and "compile eng P flags = Inr r"
  shows "create eng config P flags w =
    (\<lparr>safe = True, regex = Some r, error = None, reason = Some ok\<rparr>, w)"
  using assms by (auto simp: create_def try_compile_def Let_def)

lemma length_escape_chars:
  "length T \<le> length (escape_chars cls T) \<and> length (escape_chars cls T) \<le> 2 * length T"
  by (induction T) (auto simp: escape_chars_def)

lemma globToRegex_compiles:
  assumes "conforms eng" and "quickSafetyCheck (glob_pattern glob)"
    and "js_parse (glob_pattern glob) = Some ts"
    and "int (length (glob_pattern glob)) \<le> maxLength config"
  shows "\<exists>r. globToRegex eng config glob w =
           (\<lparr>safe = True, regex = Some r, error = None, reason = Some ok\<rparr>, w) \<and>
         (\<forall>input. test eng r input = rx_search True ts True input)"
proof -
  from conforms_compile[OF assms(1,3)] obtain r where
    r: "compile eng (glob_pattern glob) (Some ''i'') = Inr r"
      "\<forall>input. test eng r input = rx_search True ts True input" by blast
  have "create eng config (glob_pattern glob) (Some ''i'') w =
      (\<lparr>safe = True, regex = Some r, error = None, reason = Some ok\<rparr>, w)"
    using assms(4,2) r(1) by (intro create_passes) auto
  with r(2) show ?thesis by (auto simp: globToRegex_def)
qed

section \<open>Escaping\<close>

text \<open>
  Claim C10. For every text, every configuration and every engine, \<open>fromUserInput\<close> returns
  what \<open>create\<close> returns on the text escaped by \<open>escapeForRegex\<close> with the flags \<open>i\<close>, and
  makes the same callback calls.
\<close>

theorem fromUserInput_is_create_escaped:
  "fromUserInput eng config T w = create eng config (escapeForRegex T) (Some ''i'') w"
  by (simp add: fromUserInput_def escapeForRegex_def)

section \<open>Nested quantifiers\<close>

text \<open>
  Claim C3, as amended. The first danger signature flags every pattern that contains a
  \<open>(\<close>, then characters other than \<open>)\<close> with a \<open>+\<close> or a \<open>*\<close> among them, then a \<open>)\<close>
  immediately followed by \<open>+\<close> or \<open>*\<close>; this covers \<open>(a+)+\<close> and \<open>(a*)*\<close>. For every such
  pattern \<open>analyzePattern\<close> returns \<open>safe:false\<close> with the reason \<open>nested_quantifiers\<close>, and
  so does \<open>create\<close> when the pattern is not longer than \<open>maxLength\<close> (so for \<open>^(a+)+$\<close> under
  the default configuration), calling \<open>onBlock\<close> once when it is configured.
\<close>

theorem nested_quantifiers_flagged:
  assumes "CHR '')'' \<notin> set body" and "CHR ''+'' \<in> set body \<or> CHR ''*'' \<in> set body"
    and "q = CHR ''+'' \<or> q = CHR ''*''"
    and "P = pre @ ''('' @ body @ '')'' @ [q] @ post"
  shows "rx_test sig_nested P \<and>
    analyzePattern P =
      \<lparr>a_safe = False, a_reason = Some nested_quantifiers,
       a_message = Some ''Pattern contains nested quantifiers which can cause exponential backtracking''\<rparr> \<and>
    (int (length P) \<le> maxLength config \<longrightarrow>
       create eng config P flags w =
         (\<lparr>safe = False, regex = None,
           error = Some ''Pattern contains nested quantifiers which can cause exponential backtracking'',
           reason = Some nested_quantifiers\<rparr>,
          case onBlock config of
            None \<Rightarrow> w
          | Some f \<Rightarrow> f ''Pattern contains nested quantifiers which can cause exponential backtracking'' P w))"
proof -
  have t: "rx_test sig_nested P"
    unfolding assms(4) using assms(1-3) by (rule sig_nested_match)
  then have a: "analyzePattern P =
      \<lparr>a_safe = False, a_reason = Some nested_quantifiers,
       a_message = Some ''Pattern contains nested quantifiers which can cause exponential backtracking''\<rparr>"
    by (simp add: analyzePattern_def DANGEROUS_PATTERNS_def)
  have "\<not> quickSafetyCheck P"
    unfolding quickSafetyCheck_iff using assms(3,4) by auto
  with t a show ?thesis
    by (simp add: create_def notify_block split: option.splits)
qed


text \<open>The theorem at \<open>(a+)+\<close>, at \<open>(a*)*\<close> and at \<open>^(a+)+$\<close> under the default configuration.\<close>

theorem nested_quantifiers_flagged_witness:
  "rx_test sig_nested ''(a+)+'' \<and> a_reason (analyzePattern ''(a+)+'') = Some nested_quantifiers \<and>
   rx_test sig_nested ''(a*)*'' \<and> a_reason (analyzePattern ''(a*)*'') = Some nested_quantifiers \<and>
   createSafeRegex model_engine ''^(a+)+$'' None () =
     (\<lparr>safe = False, regex = None,
       error = Some ''Pattern contains nested quantifiers which can cause exponential backtracking'',
       reason = Some nested_quantifiers\<rparr>, ())"
proof -
  have plus: "CHR '')'' \<notin> set ''a+''" "CHR ''+'' \<in> set ''a+'' \<or> CHR ''*'' \<in> set ''a+''"
    "CHR ''+'' = CHR ''+'' \<or> CHR ''+'' = CHR ''*''" by simp_all
  have star: "CHR '')'' \<notin> set ''a*''" "CHR ''+'' \<in> set ''a*'' \<or> CHR ''*'' \<in> set ''a*''"
    "CHR ''*'' = CHR ''+'' \<or> CHR ''*'' = CHR ''*''" by simp_all
  have 1: "''(a+)+'' = [] @ ''('' @ ''a+'' @ '')'' @ [CHR ''+''] @ []" by simp
  have 2: "''(a*)*'' = [] @ ''('' @ ''a*'' @ '')'' @ [CHR ''*''] @ []" by simp
  have 3: "''^(a+)+$'' = ''^'' @ ''('' @ ''a+'' @ '')'' @ [CHR ''+''] @ ''$''" by simp
  show ?thesis
    using nested_quantifiers_flagged[OF plus 1, of DEFAULT_CONFIG model_engine None "()"]
      nested_quantifiers_flagged[OF star 2, of DEFAULT_CONFIG model_engine None "()"]
      nested_quantifiers_flagged[OF plus 3, of DEFAULT_CONFIG model_engine None "()"]
    by (simp add: createSafeRegex_def DEFAULT_CONFIG_def)
qed


text \<open>
  Claim C3 as stated fails at \<open>(a{1,})+\<close>: the group holds neither \<open>+\<close> nor \<open>*\<close>, the first
  signature does not match, no other signature does, and the verdict is \<open>safe:true\<close>.
\<close>

theorem nested_braces_counterexample:
  "\<not> rx_test sig_nested ''(a{1,})+'' \<and>
   analyzePattern ''(a{1,})+'' = \<lparr>a_safe = True, a_reason = Some ok, a_message = None\<rparr>"
  by code_simp

section \<open>The fast path\<close>

text \<open>
  Claim C1, at two patterns where the code departs from it. \<open>[a]+[b]+\<close> has quantifiers
  and no parenthesis and \<open>^(a{1,}){1,}$\<close> has none of \<open>+\<close>, \<open>*\<close>, \<open>?\<close>, so
  \<open>quickSafetyCheck\<close> answers true for both; \<open>analyzePattern\<close> rejects both with
  \<open>catastrophic_backtracking\<close> (the fifth and the third signature); and \<open>create\<close> under the
  default configuration never asks the analyzer and hands both to the engine.
\<close>

theorem quickSafetyCheck_bypass:
  "quickSafetyCheck ''[a]+[b]+'' \<and>
   analyzePattern ''[a]+[b]+'' =
     \<lparr>a_safe = False, a_reason = Some catastrophic_backtracking,
      a_message = Some ''Pattern contains overlapping character classes with quantifiers''\<rparr> \<and>
   createSafeRegex eng ''[a]+[b]+'' flags w = (try_compile eng ''[a]+[b]+'' flags, w) \<and>
   quickSafetyCheck ''^(a{1,}){1,}$'' \<and>
   analyzePattern ''^(a{1,}){1,}$'' =
     \<lparr>a_safe = False, a_reason = Some catastrophic_backtracking,
      a_message = Some ''Pattern contains repeated group which may cause backtracking''\<rparr> \<and>
   createSafeRegex eng ''^(a{1,}){1,}$'' flags w = (try_compile eng ''^(a{1,}){1,}$'' flags, w)"
proof -
  have q1: "quickSafetyCheck ''[a]+[b]+''" by code_simp
  have a1: "analyzePattern ''[a]+[b]+'' =
     \<lparr>a_safe = False, a_reason = Some catastrophic_backtracking,
      a_message = Some ''Pattern contains overlapping character classes with quantifiers''\<rparr>"
    by code_simp
  have q2: "quickSafetyCheck ''^(a{1,}){1,}$''" by code_simp
  have a2: "analyzePattern ''^(a{1,}){1,}$'' =
     \<lparr>a_safe = False, a_reason = Some catastrophic_backtracking,
      a_message = Some ''Pattern contains repeated group which may cause backtracking''\<rparr>"
    by code_simp
  show ?thesis
    using q1 a1 q2 a2 by (simp add: createSafeRegex_def create_def DEFAULT_CONFIG_def)
qed

section \<open>The length limit\<close>

text \<open>
  Claim C4. A pattern longer than \<open>maxLength\<close> is rejected with \<open>pattern_too_long\<close>, whatever
  it contains and whatever the engine is (nothing else is looked at), and \<open>onBlock\<close>, when
  configured, is called exactly once, with the message and the pattern; so a pattern of
  \<open>maxLength + 1\<close> characters is rejected. A pattern of exactly \<open>maxLength\<close> characters that
  the analyzer finds safe passes the length check and the safety check without a callback: the result is that of the
  native compilation, \<open>safe:true\<close> with the compiled object when the engine compiles it.
\<close>

theorem create_length_limit:
  "(int (length P) > maxLength config \<longrightarrow>
      create eng config P flags w =
        (\<lparr>safe = False, regex = None,
          error = Some (''Pattern exceeds maximum length of '' @ number_to_string (maxLength config)),
          reason = Some pattern_too_long\<rparr>,
         case onBlock config of
           None \<Rightarrow> w
         | Some f \<Rightarrow>
             f (''Pattern exceeds maximum length of '' @ number_to_string (maxLength config)) P w)) \<and>
   (int (length P) = maxLength config + 1 \<longrightarrow>
      safe (fst (create eng config P flags w)) = False \<and>
      reason (fst (create eng config P flags w)) = Some pattern_too_long) \<and>
   (int (length P) = maxLength config \<longrightarrow> a_safe (analyzePattern P) \<longrightarrow>
      create eng config P flags w = (try_compile eng P flags, w) \<and>
      (\<forall>r. compile eng P flags = Inr r \<longrightarrow>
         create eng config P flags w =
           (\<lparr>safe = True, regex = Some r, error = None, reason = Some ok\<rparr>, w)))"
  by (simp add: create_def notify_block try_compile_def Let_def split: option.splits)

text \<open>
  With \<open>maxLength = 3\<close> and a recording \<open>onBlock\<close>: \<open>(a+)+\<close> and \<open>a(+)\<close> are too long, and
  the first is recorded once; \<open>abc\<close> is accepted.
\<close>

theorem create_length_limit_witness:
  "create model_engine (DEFAULT_CONFIG\<lparr>maxLength := 3, onBlock := Some record_call\<rparr>) ''(a+)+'' None [] =
     (\<lparr>safe = False, regex = None, error = Some ''Pattern exceeds maximum length of 3'',
       reason = Some pattern_too_long\<rparr>,
      [(''Pattern exceeds maximum length of 3'', ''(a+)+'')]) \<and>
   reason (fst (create model_engine (DEFAULT_CONFIG\<lparr>maxLength := 3, onBlock := Some record_call\<rparr>)
     ''a(+)'' None [])) = Some pattern_too_long \<and>
   create model_engine (DEFAULT_CONFIG\<lparr>maxLength := 3, onBlock := Some record_call\<rparr>) ''abc'' None [] =
     (\<lparr>safe = True,
       regex = Some ([Atom (Lit CHR ''a'') One, Atom (Lit CHR ''b'') One, Atom (Lit CHR ''c'') One], False),
       error = None, reason = Some ok\<rparr>, [])"
proof -
  let ?cfg = "DEFAULT_CONFIG\<lparr>maxLength := 3, onBlock := Some record_call\<rparr> :: (string \<times> string) list SafeRegexConfig"
  have 1: "int (length ''(a+)+'') > maxLength ?cfg" by (simp add: DEFAULT_CONFIG_def)
  have 2: "int (length ''a(+)'') = maxLength ?cfg + 1" by (simp add: DEFAULT_CONFIG_def)
  have 3: "int (length ''abc'') = maxLength ?cfg" by (simp add: DEFAULT_CONFIG_def)
  have 4: "a_safe (analyzePattern ''abc'')" by code_simp
  have 5: "compile model_engine ''abc'' None =
    Inr ([Atom (Lit CHR ''a'') One, Atom (Lit CHR ''b'') One, Atom (Lit CHR ''c'') One], False)"
    by (simp add: model_engine_def js_flags_def)
  have n: "number_to_string 3 = ''3''" by code_simp
  show ?thesis
    using create_length_limit[where P="''(a+)+''" and config="?cfg" and eng=model_engine and flags=None and w="[]", THEN conjunct1, rule_format, OF 1]
      create_length_limit[where P="''a(+)''" and config="?cfg" and eng=model_engine and flags=None and w="[]", THEN conjunct2, THEN conjunct1, rule_format, OF 2]
      create_length_limit[where P="''abc''" and config="?cfg" and eng=model_engine and flags=None and w="[]", THEN conjunct2, THEN conjunct2, rule_format, OF 3 4, THEN conjunct2, rule_format, OF 5]
    by (simp add: DEFAULT_CONFIG_def n record_call_def)
qed

section \<open>Callbacks of create\<close>

text \<open>
  Claim C8. When the pattern passes the length check and the safety check and the native
  compilation fails, \<open>create\<close> returns \<open>safe:false\<close> with the reason \<open>invalid_syntax\<close> and
  the engine's error text behind \<open>Invalid regex syntax: \<close>, and calls no callback. In any
  call of \<open>create\<close>, \<open>onBlock\<close> is called at most once, with the pattern, and only when the
  result is unsafe with the reason \<open>pattern_too_long\<close> or one of the analyzer's three
  reasons; with a recording callback, at most one call is recorded, and none when the result
  is safe or \<open>invalid_syntax\<close>.
\<close>

theorem create_callback_discipline:
  "(int (length P) \<le> maxLength config \<longrightarrow> quickSafetyCheck P \<or> a_safe (analyzePattern P) \<longrightarrow>
    compile eng P flags = Inl e \<longrightarrow>
      create eng config P flags w =
        (\<lparr>safe = False, regex = None,
          error = Some (''Invalid regex syntax: '' @
                        (case e of Error m \<Rightarrow> m | NonError \<Rightarrow> ''Unknown error'')),
          reason = Some invalid_syntax\<rparr>, w)) \<and>
   (create eng config P flags w = (res, w') \<longrightarrow>
      w' = w \<or>
      (\<exists>f m. onBlock config = Some f \<and> w' = f m P w \<and> \<not> safe res \<and>
         reason res \<in> {Some pattern_too_long, Some nested_quantifiers,
                        Some overlapping_alternation, Some catastrophic_backtracking})) \<and>
   (onBlock rconfig = Some record_call \<longrightarrow> create eng rconfig P flags calls = (res', calls') \<longrightarrow>
      (calls' = calls \<or> (\<exists>m. calls' = calls @ [(m, P)])) \<and>
      (safe res' \<or> reason res' = Some invalid_syntax \<longrightarrow> calls' = calls))"
proof -
  have *: "w'' = w0 \<or>
      (\<exists>f m. onBlock c = Some f \<and> w'' = f m P w0 \<and> \<not> safe r \<and>
         reason r \<in> {Some pattern_too_long, Some nested_quantifiers,
                        Some overlapping_alternation, Some catastrophic_backtracking})"
    if "create eng c P flags w0 = (r, w'')" for c :: "'c SafeRegexConfig" and w0 w'' r
    using that analyzePattern_cases[of P]
    by (auto simp: create_def notify_block Let_def split: if_splits option.splits)
  have 1: "int (length P) \<le> maxLength config \<longrightarrow> quickSafetyCheck P \<or> a_safe (analyzePattern P) \<longrightarrow>
    compile eng P flags = Inl e \<longrightarrow>
      create eng config P flags w =
        (\<lparr>safe = False, regex = None,
          error = Some (''Invalid regex syntax: '' @
                        (case e of Error m \<Rightarrow> m | NonError \<Rightarrow> ''Unknown error'')),
          reason = Some invalid_syntax\<rparr>, w)"
    by (auto simp: create_def try_compile_def Let_def)
  have 3: "(calls' = calls \<or> (\<exists>m. calls' = calls @ [(m, P)])) \<and>
      (safe res' \<or> reason res' = Some invalid_syntax \<longrightarrow> calls' = calls)"
    if "onBlock rconfig = Some record_call" "create eng rconfig P flags calls = (res', calls')"
    using *[OF that(2)] that(1) by (auto simp: record_call_def)
  have 2: "create eng config P flags w = (res, w') \<longrightarrow>
      w' = w \<or>
      (\<exists>f m. onBlock config = Some f \<and> w' = f m P w \<and> \<not> safe res \<and>
         reason res \<in> {Some pattern_too_long, Some nested_quantifiers,
                        Some overlapping_alternation, Some catastrophic_backtracking})"
    using *[of config w res w'] by blast
  from 3 have p3: "onBlock rconfig = Some record_call \<longrightarrow>
      create eng rconfig P flags calls = (res', calls') \<longrightarrow>
      (calls' = calls \<or> (\<exists>m. calls' = calls @ [(m, P)])) \<and>
      (safe res' \<or> reason res' = Some invalid_syntax \<longrightarrow> calls' = calls)"
    by blast
  show ?thesis
    using 1 2 p3 by (intro conjI)
qed

text \<open>
  An engine that rejects \<open>[\<close>: \<open>invalid_syntax\<close>, nothing recorded. \<open>(a|b)+\<close> is blocked
  and recorded once; \<open>^hello$\<close> is accepted and nothing is recorded.
\<close>

theorem create_callback_discipline_witness:
  "create \<lparr>compile = (\<lambda>p f. Inl (Error ''Unterminated character class'')), test = (\<lambda>r s. False)\<rparr>
     (DEFAULT_CONFIG\<lparr>onBlock := Some record_call\<rparr>) ''['' None [] =
     (\<lparr>safe = False, regex = (None :: unit option),
       error = Some ''Invalid regex syntax: Unterminated character class'',
       reason = Some invalid_syntax\<rparr>, []) \<and>
   snd (create model_engine (DEFAULT_CONFIG\<lparr>onBlock := Some record_call\<rparr>) ''(a|b)+'' None []) =
     [(''Pattern contains alternation with quantifier which may cause backtracking'', ''(a|b)+'')] \<and>
   snd (create model_engine (DEFAULT_CONFIG\<lparr>onBlock := Some record_call\<rparr>) ''^hello$'' None []) = []"
proof -
  let ?eng = "\<lparr>compile = (\<lambda>p f. Inl (Error ''Unterminated character class'')),
    test = (\<lambda>r s. False)\<rparr> :: unit engine"
  let ?cfg = "DEFAULT_CONFIG\<lparr>onBlock := Some record_call\<rparr> :: (string \<times> string) list SafeRegexConfig"
  have l: "int (length ''['') \<le> maxLength ?cfg" by (simp add: DEFAULT_CONFIG_def)
  have q: "quickSafetyCheck ''['' \<or> a_safe (analyzePattern ''['')" by code_simp
  have c: "compile ?eng ''['' None = Inl (Error ''Unterminated character class'')" by simp
  have b: "onBlock ?cfg = Some record_call" by simp
  obtain r1 c1 where e1: "create model_engine ?cfg ''(a|b)+'' None [] = (r1, c1)" by force
  obtain r2 c2 where e2: "create model_engine ?cfg ''^hello$'' None [] = (r2, c2)" by force
  have a1: "analyzePattern ''(a|b)+'' = \<lparr>a_safe = False, a_reason = Some overlapping_alternation,
      a_message = Some ''Pattern contains alternation with quantifier which may cause backtracking''\<rparr>"
    by code_simp
  have q1: "\<not> quickSafetyCheck ''(a|b)+''" by code_simp
  have q2: "quickSafetyCheck ''^hello$''" by code_simp
  have p2: "js_parse ''^hello$'' \<noteq> None" by simp
  from e1 a1 q1 have c1: "c1 \<noteq> []" by (auto simp: create_def DEFAULT_CONFIG_def notify_block record_call_def)
  from e2 q2 p2 have s2: "safe r2"
    by (auto simp: create_def DEFAULT_CONFIG_def try_compile_def model_engine_def js_flags_def)
  show ?thesis
    using create_callback_discipline[where P="''[''" and config="?cfg" and eng="?eng" and flags=None
        and e="Error ''Unterminated character class''" and w="[]", THEN conjunct1, rule_format, OF l q c]
      create_callback_discipline[where P="''(a|b)+''" and config="?cfg" and eng="model_engine" and flags=None
        and w="[]" and res=r1 and w'=c1, THEN conjunct2, THEN conjunct1, rule_format, OF e1]
      create_callback_discipline[where P="''^hello$''" and rconfig="?cfg" and eng="model_engine" and flags=None
        and calls="[]" and res'=r2 and calls'=c2, THEN conjunct2, THEN conjunct2, rule_format, OF b e2] c1 s2 e1 e2 a1 q1
    by (auto simp: record_call_def create_def notify_block DEFAULT_CONFIG_def)
qed

section \<open>Literal texts\<close>

text \<open>
  Claim C5, as amended. The length that counts is that of the escaped text, which has
  between \<open>length T\<close> and \<open>2 * length T\<close> characters: when it is longer than \<open>maxLength\<close>,
  \<open>fromUserInput\<close> fails with \<open>pattern_too_long\<close>. For every text whose escaped form is
  not longer than \<open>maxLength\<close>, and every engine that conforms, \<open>fromUserInput\<close> returns
  \<open>safe:true\<close> with a compiled pattern that matches the text itself and, of all inputs,
  exactly those that contain the text up to the case folding of the \<open>i\<close> flag.
\<close>

theorem fromUserInput_literal:
  "(conforms eng \<longrightarrow> int (length (escapeForRegex T)) \<le> maxLength config \<longrightarrow>
      (\<exists>r. fromUserInput eng config T w =
              (\<lparr>safe = True, regex = Some r, error = None, reason = Some ok\<rparr>, w) \<and>
            test eng r T \<and>
            (\<forall>input. test eng r input \<longleftrightarrow>
               (\<exists>pre u post. input = pre @ u @ post \<and>
                  map canonicalize u = map canonicalize T)))) \<and>
   (int (length (escapeForRegex T)) > maxLength config \<longrightarrow>
      safe (fst (fromUserInput eng config T w)) = False \<and>
      reason (fst (fromUserInput eng config T w)) = Some pattern_too_long) \<and>
   length T \<le> length (escapeForRegex T) \<and> length (escapeForRegex T) \<le> 2 * length T"
proof (intro conjI impI)
  assume c: "conforms eng" and l: "int (length (escapeForRegex T)) \<le> maxLength config"
  from conforms_compile[OF c js_parse_escaped] obtain r where
    r: "compile eng (escapeForRegex T) (Some ''i'') = Inr r"
      "\<And>input. test eng r input = rx_search True (literal T) True input" by blast
  have "a_safe (analyzePattern (escapeForRegex T))" by (simp add: escaped_analysis)
  then have "create eng config (escapeForRegex T) (Some ''i'') w =
      (\<lparr>safe = True, regex = Some r, error = None, reason = Some ok\<rparr>, w)"
    using l r(1) by (intro create_passes) auto
  then have 1: "fromUserInput eng config T w =
      (\<lparr>safe = True, regex = Some r, error = None, reason = Some ok\<rparr>, w)"
    by (simp add: fromUserInput_def escapeForRegex_def)
  have 2: "test eng r input \<longleftrightarrow>
      (\<exists>pre u post. input = pre @ u @ post \<and> map canonicalize u = map canonicalize T)" for input
    by (simp add: r(2) literal_search)
  have "T = [] @ T @ [] \<and> map canonicalize T = map canonicalize T" by simp
  then have 3: "test eng r T" unfolding 2 by blast
  from 1 2 3 show "\<exists>r. fromUserInput eng config T w =
      (\<lparr>safe = True, regex = Some r, error = None, reason = Some ok\<rparr>, w) \<and>
      test eng r T \<and>
      (\<forall>input. test eng r input \<longleftrightarrow>
         (\<exists>pre u post. input = pre @ u @ post \<and> map canonicalize u = map canonicalize T))"
    by blast
next
  assume "int (length (escapeForRegex T)) > maxLength config"
  then show "safe (fst (fromUserInput eng config T w)) = False"
    and "reason (fst (fromUserInput eng config T w)) = Some pattern_too_long"
    by (simp_all add: fromUserInput_def escapeForRegex_def create_def)
next
  show "length T \<le> length (escapeForRegex T)" "length (escapeForRegex T) \<le> 2 * length T"
    using length_escape_chars by (simp_all add: escapeForRegex_def)
qed

text \<open>
  At the model engine and the text \<open>a.b\<close>: accepted under the default configuration, the
  compiled pattern matches \<open>a.b\<close> and \<open>xA.Bx\<close> and does not match \<open>aXb\<close>; with
  \<open>maxLength = 3\<close> the escaped text, of four characters, is too long.
\<close>

theorem fromUserInput_literal_witness:
  "(\<exists>r. fromUserInput model_engine DEFAULT_CONFIG ''a.b'' () =
          (\<lparr>safe = True, regex = Some r, error = None, reason = Some ok\<rparr>, ()) \<and>
        test model_engine r ''a.b'' \<and> test model_engine r ''xA.Bx'' \<and> \<not> test model_engine r ''aXb'') \<and>
   reason (fst (fromUserInput model_engine (DEFAULT_CONFIG\<lparr>maxLength := 3\<rparr>) ''a.b'' ())) =
     Some pattern_too_long"
proof -
  have e: "escapeForRegex ''a.b'' = [CHR ''a'', bs, CHR ''.'', CHR ''b'']"
    by (simp add: escapeForRegex_def escape_chars_def)
  have l: "int (length (escapeForRegex ''a.b'')) \<le> maxLength (DEFAULT_CONFIG :: unit SafeRegexConfig)"
    by (simp add: e DEFAULT_CONFIG_def)
  have g: "int (length (escapeForRegex ''a.b'')) > maxLength ((DEFAULT_CONFIG :: unit SafeRegexConfig)\<lparr>maxLength := 3\<rparr>)"
    by (simp add: e)
  from fromUserInput_literal[where eng=model_engine and T="''a.b''" and config=DEFAULT_CONFIG and w="()",
      THEN conjunct1, rule_format, OF model_engine_conforms l]
  obtain r where r: "fromUserInput model_engine DEFAULT_CONFIG ''a.b'' () =
      (\<lparr>safe = True, regex = Some r, error = None, reason = Some ok\<rparr>, ())"
    "test model_engine r ''a.b''"
    "\<And>input. test model_engine r input \<longleftrightarrow>
       (\<exists>pre u post. input = pre @ u @ post \<and> map canonicalize u = map canonicalize ''a.b'')"
    by blast
  have "''xA.Bx'' = ''x'' @ ''A.B'' @ ''x'' \<and> map canonicalize ''A.B'' = map canonicalize ''a.b''"
    by (simp add: canonicalize_def)
  then have yes: "test model_engine r ''xA.Bx''" unfolding r(3) by blast
  have c: "compile model_engine (escapeForRegex ''a.b'') (Some ''i'') = Inr (literal ''a.b'', True)"
    by (simp add: model_engine_def js_parse_escaped js_flags_def)
  have "a_safe (analyzePattern (escapeForRegex ''a.b''))" by (simp add: escaped_analysis)
  then have "create model_engine DEFAULT_CONFIG (escapeForRegex ''a.b'') (Some ''i'') () =
      (\<lparr>safe = True, regex = Some (literal ''a.b'', True), error = None, reason = Some ok\<rparr>, ())"
    using l c by (intro create_passes) auto
  with r(1) have "r = (literal ''a.b'', True)"
    by (simp add: fromUserInput_def escapeForRegex_def)
  then have no: "\<not> test model_engine r ''aXb''"
    by (simp add: model_engine_def literal_def char_eq_def canonicalize_def)
  show ?thesis
    using r(1,2) yes no
      fromUserInput_literal[where eng=model_engine and T="''a.b''"
        and config="DEFAULT_CONFIG\<lparr>maxLength := 3\<rparr>" and w="()",
        THEN conjunct2, THEN conjunct1, rule_format, OF g]
    by blast
qed

text \<open>
  Claim C5 as stated fails under the default configuration at the text of 251 dots: it is
  shorter than \<open>maxLength = 500\<close>, its escaped form has 502 characters, and the result is
  \<open>pattern_too_long\<close>.
\<close>

theorem fromUserInput_length_counterexample:
  "int (length (replicate 251 CHR ''.'')) \<le> maxLength (DEFAULT_CONFIG :: unit SafeRegexConfig) \<and>
   fst (fromUserInput model_engine DEFAULT_CONFIG (replicate 251 CHR ''.'') ()) =
     \<lparr>safe = False, regex = None, error = Some ''Pattern exceeds maximum length of 500'',
      reason = Some pattern_too_long\<rparr>"
proof -
  have "length (escape_chars cls (replicate n c)) = 2 * n" if "c \<in> set cls" for cls n c
    using that by (induction n) (auto simp: escape_chars_def)
  then have "length (escape_chars (''.*+?^${}()|[]'' @ [bs]) (replicate 251 CHR ''.'')) = 502"
    by simp
  moreover have "number_to_string 500 = ''500''" by code_simp
  ultimately show ?thesis
    by (simp add: fromUserInput_def create_def DEFAULT_CONFIG_def notify_block)
qed

section \<open>Globs\<close>

text \<open>
  Claim C7. On every engine that conforms and under every configuration with
  \<open>maxLength\<close> at least 14 (the default is 500), \<open>globToRegex\<close> of \<open>*.md\<close> returns a safe
  result whose compiled pattern matches \<open>readme.md\<close> and matches neither \<open>readme.txt\<close> nor
  \<open>a/readme.md\<close>, and \<open>globToRegex\<close> of \<open>**/*.md\<close> returns a safe result whose compiled
  pattern matches \<open>a/b/readme.md\<close>.
\<close>

theorem glob_round_trip:
  assumes "conforms eng" and "14 \<le> maxLength config"
  shows "(\<exists>r. globToRegex eng config ''*.md'' w =
            (\<lparr>safe = True, regex = Some r, error = None, reason = Some ok\<rparr>, w) \<and>
          test eng r ''readme.md'' \<and> \<not> test eng r ''readme.txt'' \<and>
          \<not> test eng r ''a/readme.md'') \<and>
         (\<exists>r. globToRegex eng config ''**/*.md'' w =
            (\<lparr>safe = True, regex = Some r, error = None, reason = Some ok\<rparr>, w) \<and>
          test eng r ''a/b/readme.md'')"
proof -
  let ?ts1 = "[Bol, Atom (NotIn ''/'') Star, Atom (Lit CHR ''.'') One, Atom (Lit CHR ''m'') One,
    Atom (Lit CHR ''d'') One, Eol]"
  let ?ts2 = "[Bol, Atom Dot Star, Atom (Lit CHR ''/'') One, Atom (NotIn ''/'') Star,
    Atom (Lit CHR ''.'') One, Atom (Lit CHR ''m'') One, Atom (Lit CHR ''d'') One, Eol]"
  have g1: "glob_pattern ''*.md'' = ''^[^/]*'' @ [bs] @ ''.md$''" by code_simp
  have g2: "glob_pattern ''**/*.md'' = ''^.*/[^/]*'' @ [bs] @ ''.md$''" by code_simp
  have q1: "quickSafetyCheck (glob_pattern ''*.md'')" unfolding g1 by code_simp
  have q2: "quickSafetyCheck (glob_pattern ''**/*.md'')" unfolding g2 by code_simp
  have p1: "js_parse (glob_pattern ''*.md'') = Some ?ts1" unfolding g1 by simp
  have p2: "js_parse (glob_pattern ''**/*.md'') = Some ?ts2" unfolding g2 by simp
  have l1: "int (length (glob_pattern ''*.md'')) \<le> maxLength config"
    unfolding g1 using assms(2) by simp
  have l2: "int (length (glob_pattern ''**/*.md'')) \<le> maxLength config"
    unfolding g2 using assms(2) by simp
  have m1: "rx_search True ?ts1 True ''readme.md''" by code_simp
  have m2: "\<not> rx_search True ?ts1 True ''readme.txt''" by code_simp
  have m3: "\<not> rx_search True ?ts1 True ''a/readme.md''" by code_simp
  have m4: "rx_search True ?ts2 True ''a/b/readme.md''" by code_simp
  from globToRegex_compiles[OF assms(1) q1 p1 l1, of w] m1 m2 m3
  have A: "\<exists>r. globToRegex eng config ''*.md'' w =
            (\<lparr>safe = True, regex = Some r, error = None, reason = Some ok\<rparr>, w) \<and>
          test eng r ''readme.md'' \<and> \<not> test eng r ''readme.txt'' \<and>
          \<not> test eng r ''a/readme.md''"
    by auto
  from globToRegex_compiles[OF assms(1) q2 p2 l2, of w] m4
  have B: "\<exists>r. globToRegex eng config ''**/*.md'' w =
            (\<lparr>safe = True, regex = Some r, error = None, reason = Some ok\<rparr>, w) \<and>
          test eng r ''a/b/readme.md''"
    by auto
  from A B show ?thesis by (rule conjI)
qed

text \<open>The round trip on the model engine, through \<open>globToSafeRegex\<close>.\<close>

theorem glob_round_trip_witness:
  "(\<exists>r. globToSafeRegex model_engine ''*.md'' () =
        (\<lparr>safe = True, regex = Some r, error = None, reason = Some ok\<rparr>, ()) \<and>
      test model_engine r ''readme.md'' \<and> \<not> test model_engine r ''readme.txt'' \<and>
      \<not> test model_engine r ''a/readme.md'') \<and>
   (\<exists>r. globToSafeRegex model_engine ''**/*.md'' () =
        (\<lparr>safe = True, regex = Some r, error = None, reason = Some ok\<rparr>, ()) \<and>
      test model_engine r ''a/b/readme.md'')"
proof -
  have l: "14 \<le> maxLength (DEFAULT_CONFIG :: unit SafeRegexConfig)" by (simp add: DEFAULT_CONFIG_def)
  show ?thesis
    unfolding globToSafeRegex_def
    by (rule glob_round_trip[OF model_engine_conforms l])
qed

text \<open>
  Claim C6, at the glob \<open>*.{ts,tsx}\<close>, where the code departs from it. The first
  replacement of \<open>globToRegex\<close> puts a backslash before \<open>{\<close> and \<open>}\<close>, the pattern is
  \<open>^[^/]*\.\{ts,tsx\}$\<close>, and on every engine that conforms (with \<open>maxLength\<close> at least 19)
  the compiled pattern matches neither \<open>file.tsx\<close> nor \<open>file.ts\<close>; it matches the text
  \<open>file.{ts,tsx}\<close> with the braces in it.
\<close>

theorem glob_braces_literal:
  assumes "conforms eng" and "19 \<le> maxLength config"
  shows "glob_pattern ''*.{ts,tsx}'' = ''^[^/]*'' @ [bs] @ ''.'' @ [bs] @ ''{ts,tsx'' @ [bs] @ ''}$'' \<and>
         (\<exists>r. globToRegex eng config ''*.{ts,tsx}'' w =
            (\<lparr>safe = True, regex = Some r, error = None, reason = Some ok\<rparr>, w) \<and>
          \<not> test eng r ''file.tsx'' \<and> \<not> test eng r ''file.ts'' \<and>
          test eng r ''file.{ts,tsx}'')"
proof -
  let ?ts = "[Bol, Atom (NotIn ''/'') Star, Atom (Lit CHR ''.'') One,
    Atom (Lit CHR ''{'') One, Atom (Lit CHR ''t'') One, Atom (Lit CHR ''s'') One,
    Atom (Lit CHR '','') One, Atom (Lit CHR ''t'') One, Atom (Lit CHR ''s'') One,
    Atom (Lit CHR ''x'') One, Atom (Lit CHR ''}'') One, Eol]"
  have g: "glob_pattern ''*.{ts,tsx}'' = ''^[^/]*'' @ [bs] @ ''.'' @ [bs] @ ''{ts,tsx'' @ [bs] @ ''}$''"
    by code_simp
  have q: "quickSafetyCheck (glob_pattern ''*.{ts,tsx}'')" unfolding g by code_simp
  have p: "js_parse (glob_pattern ''*.{ts,tsx}'') = Some ?ts" unfolding g by simp
  have l: "int (length (glob_pattern ''*.{ts,tsx}'')) \<le> maxLength config"
    unfolding g using assms(2) by simp
  have m1: "\<not> rx_search True ?ts True ''file.tsx''" by code_simp
  have m2: "\<not> rx_search True ?ts True ''file.ts''" by code_simp
  have m3: "rx_search True ?ts True ''file.{ts,tsx}''" by code_simp
  from globToRegex_compiles[OF assms(1) q p l, of w] m1 m2 m3 g show ?thesis by auto
qed

text \<open>The same on the model engine, under the default configuration.\<close>

theorem glob_braces_literal_witness:
  "\<exists>r. globToSafeRegex model_engine ''*.{ts,tsx}'' () =
        (\<lparr>safe = True, regex = Some r, error = None, reason = Some ok\<rparr>, ()) \<and>
      \<not> test model_engine r ''file.tsx'' \<and> \<not> test model_engine r ''file.ts'' \<and>
      test model_engine r ''file.{ts,tsx}''"
proof -
  have l: "19 \<le> maxLength (DEFAULT_CONFIG :: unit SafeRegexConfig)" by (simp add: DEFAULT_CONFIG_def)
  show ?thesis
    unfolding globToSafeRegex_def
    by (rule glob_braces_literal[OF model_engine_conforms l, THEN conjunct2])
qed

section \<open>The timeout of testWithTimeout\<close>

text \<open>
  Claim C2, where the code departs from it. The match runs inside the executor, between
  \<open>setTimeout\<close> and \<open>clearTimeout\<close>, so the timer is cleared before the host can fire it:
  however long the match runs, also longer than \<open>timeoutMs\<close>, the promise settles with what
  the match returned or threw, no timer is left armed and \<open>onWarning\<close> is not called. The
  callback of the timer, had it run on the pending promise, would call \<open>onWarning\<close> (when
  configured) with the message naming the timeout and \<open>regex.source\<close> and reject with the
  timeout error; it never runs. At a match of 1112 ms with \<open>timeoutMs = 5\<close> and a recording
  \<open>onWarning\<close>, the promise resolves with \<open>false\<close> and nothing is recorded.
\<close>

theorem testWithTimeout_never_times_out:
  "testWithTimeout host config r input w =
     \<lparr>clock = snd (test_run host r input), timer = None,
      promise = Some (case fst (test_run host r input) of
                        Inr result \<Rightarrow> Resolved result | Inl err \<Rightarrow> Rejected err),
      world = w\<rparr> \<and>
   run_timers config src \<lparr>clock = c, timer = Some due, promise = None, world = w\<rparr> =
     \<lparr>clock = max c due, timer = None,
      promise = Some (Rejected (Error (''Regex execution timed out after '' @
                                       number_to_string (timeoutMs config) @ ''ms''))),
      world = (case onWarning config of
                 None \<Rightarrow> w
               | Some f \<Rightarrow> f (''Regex execution exceeded '' @ number_to_string (timeoutMs config) @
                              ''ms timeout'') src w)\<rparr> \<and>
   testWithTimeout \<lparr>test_run = (\<lambda>r input. (Inr False, 1112)), source = (\<lambda>r. r)\<rparr>
       (DEFAULT_CONFIG\<lparr>timeoutMs := 5, onWarning := Some record_call\<rparr>) ''^(x+x+)+y$'' ''xxxxxxxxxxxxxxxxxxxxxxxxxx'' [] =
     \<lparr>clock = 1112, timer = None, promise = Some (Resolved False), world = []\<rparr>"
  by (auto simp: testWithTimeout_def executor_def run_timers_def settle_def timeout_callback_def
      notify_def Let_def split: sum.splits option.splits)

end
